theory Spec2Isabelle
  imports Main "HOL-Library.Word"
begin

section \<open>Outcomes of calls\<close>

text \<open>
  A C++ call either returns a value and leaves a new program state, or leaves by an
  exception. \<open>Inl e\<close> is the exception \<open>e\<close> in flight, \<open>Inr (r, s)\<close> the normal return
  of \<open>r\<close> in state \<open>s\<close>.
\<close>

type_synonym ('e, 'r, 's) call = "'s \<Rightarrow> 'e + ('r \<times> 's)"

definition ret :: "'r \<Rightarrow> ('e, 'r, 's) call" where
  "ret r s = Inr (r, s)"

text \<open>Sequencing of two statements: an exception of the first skips the second.\<close>

definition seq :: "('e, 'a, 's) call \<Rightarrow> ('a \<Rightarrow> ('e, 'b, 's) call) \<Rightarrow> ('e, 'b, 's) call" where
  "seq m f s = (case m s of Inl e \<Rightarrow> Inl e | Inr (a, s') \<Rightarrow> f a s')"

text \<open>An expression statement \<open>e;\<close>: the value of \<open>e\<close> is dropped, an exception is not.\<close>

definition discard :: "('e, 'r, 's) call \<Rightarrow> ('e, unit, 's) call" where
  "discard m = seq m (\<lambda>_. ret ())"

text \<open>
  The state a call leaves, where an exception carries the state at the throw.
\<close>

fun state_after :: "('x \<times> 's) + ('r \<times> 's) \<Rightarrow> 's" where
  "state_after (Inl (e, s)) = s"
| "state_after (Inr (r, s)) = s"

text \<open>A list of statements run one after the other.\<close>

fun calls :: "('e, unit, 's) call list \<Rightarrow> ('e, unit, 's) call" where
  "calls [] = ret ()"
| "calls (c # cs) = seq c (\<lambda>_. calls cs)"

section \<open>Pointers\<close>

type_synonym addr = nat

text \<open>\<open>type<INTERFACE, DETAILS>*\<close>: the composed object at an address.\<close>

datatype type_ptr = Type_at addr

text \<open>
  \<open>INTERFACE<type<INTERFACE, DETAILS>>*\<close>: the base subobject of a composed object
  (helpers.h line 30, the only place the class is derived from).
\<close>

datatype INTERFACE_ptr = INTERFACE_base type_ptr

text \<open>
  \<open>DETAILS*\<close>: the member \<open>d\<close> of a composed object (helpers.h line 34), or an
  implementation object that stands on its own.
\<close>

datatype DETAILS_ptr = Member_d type_ptr | Standalone addr

section \<open>helpers.h: the composed type\<close>

text \<open>\<open>static_cast<type<INTERFACE, DETAILS> *>(i)\<close>: from the base subobject to its object.\<close>

fun static_cast_type :: "INTERFACE_ptr \<Rightarrow> type_ptr" where
  "static_cast_type (INTERFACE_base p) = p"

text \<open>
  helpers.h lines 37-39:
  \<^verbatim>\<open>constexpr static DETAILS* details(INTERFACE<type<INTERFACE, DETAILS>> *i)
  { return &(static_cast<type<INTERFACE, DETAILS> *>(i)->d); }\<close>
\<close>

definition details :: "INTERFACE_ptr \<Rightarrow> DETAILS_ptr" where
  "details i = Member_d (static_cast_type i)"

text \<open>
  helpers.h lines 41-43, the overload on pointers to const:
  \<^verbatim>\<open>constexpr static const DETAILS* details(const INTERFACE<type<INTERFACE, DETAILS>> *i)
  { return &(static_cast<const type<INTERFACE, DETAILS> *>(i)->d); }\<close>
\<close>

definition details_const :: "INTERFACE_ptr \<Rightarrow> DETAILS_ptr" where
  "details_const i = Member_d (static_cast_type i)"

text \<open>The implicit conversion of a pointer to a composed object to its public base.\<close>

definition to_INTERFACE :: "type_ptr \<Rightarrow> INTERFACE_ptr" where
  "to_INTERFACE p = INTERFACE_base p"

section \<open>a.h: the example implementation\<close>

datatype iobit = Badbit | Failbit | Eofbit

text \<open>
  The program state of one translation unit that includes a.h:
  \<^item> \<open>g_count\<close> is \<^verbatim>\<open>static volatile int g_count;\<close> of namespace \<open>details\<close>
    (a.h line 33), an \<open>int\<close> of 32 bits, read in two's complement by \<open>sint\<close>, whose \<open>+\<close> wraps;
  \<^item> \<open>cout\<close> is the characters standard output has taken from \<open>std::cout\<close> so far,
    \<open>cout_rdstate\<close> the error bits of the stream (none set: the stream is good),
    \<open>cout_exceptions\<close> its exception mask, \<open>cout_width\<close>, \<open>cout_fill\<close> and
    \<open>cout_left\<close> its field width, fill character and whether it pads on the right,
    and \<open>cout_room\<close> how many more characters the output device takes (\<open>None\<close>: every
    one);
  \<^item> \<open>binders\<close> are the composed objects alive, \<open>impls\<close> the \<open>details::A\<close> objects
    alive, and \<open>next_addr\<close> is the next address storage is handed out at.
  Class \<open>details::A\<close> (a.h lines 36-41) declares no data member, so an object of it
  has no value to store: being alive is all there is to it.
\<close>

record world =
  g_count :: "32 word"
  cout :: string
  cout_rdstate :: "iobit set"
  cout_exceptions :: "iobit set"
  cout_width :: nat
  cout_fill :: char
  cout_left :: bool
  cout_room :: "nat option"
  binders :: "type_ptr set"
  impls :: "DETAILS_ptr set"
  next_addr :: addr

text \<open>
  \<open>std::ios_base::failure\<close>, the one exception the stream throws. An exception in
  flight is kept with the state at the throw.
\<close>

datatype exn = Ios_base_failure

type_synonym thrown = "exn \<times> world"

text \<open>
  a.h line 39: \<^verbatim>\<open>void NOINLINE foo() { g_count += 1; }\<close>. The body never names
  \<open>this\<close>.
\<close>

definition details_A_foo :: "DETAILS_ptr \<Rightarrow> ('e, unit, world) call" where
  "details_A_foo this w = Inr ((), w\<lparr>g_count := g_count w + 1\<rparr>)"

subsection \<open>The stream std::cout\<close>

text \<open>
  The operations of \<open>std::cout\<close> that a.h line 40 calls belong to the C++ library, not
  to the repository. They are written out as the C++ standard specifies them; where the
  standard leaves a choice (whether the sentry sets \<open>failbit\<close>) the choice is that of
  libstdc++. The output sequence has no buffer here: a character is taken for good or
  refused.
\<close>

definition good :: "world \<Rightarrow> bool" where
  "good w = (cout_rdstate w = {})"

text \<open>
  \<open>setstate\<close> adds error bits and throws \<open>std::ios_base::failure\<close> when a bit of the
  new state is in the exception mask.
\<close>

definition setstate :: "iobit set \<Rightarrow> (thrown, unit, world) call" where
  "setstate bits w =
     (let w' = w\<lparr>cout_rdstate := cout_rdstate w \<union> bits\<rparr> in
      if cout_rdstate w' \<inter> cout_exceptions w' = {} then Inr ((), w')
      else Inl (Ios_base_failure, w'))"

text \<open>
  The sentry every output function constructs first: the output goes ahead only when
  the stream is good; a stream with \<open>badbit\<close> gets \<open>failbit\<close> too. \<open>std::cout\<close> is
  tied to no other stream.
\<close>

definition sentry :: "(thrown, bool, world) call" where
  "sentry w =
     (if good w then Inr (True, w)
      else if Badbit \<in> cout_rdstate w then seq (setstate {Failbit}) (\<lambda>_. ret False) w
      else Inr (False, w))"

text \<open>
  \<open>rdbuf()->sputn\<close>: the device takes the characters it has room for; the result says
  whether it took them all.
\<close>

definition sputn :: "string \<Rightarrow> (thrown, bool, world) call" where
  "sputn s w =
     (case cout_room w of
        None \<Rightarrow> Inr (True, w\<lparr>cout := cout w @ s\<rparr>)
      | Some n \<Rightarrow>
          Inr (length s \<le> n, w\<lparr>cout := cout w @ take n s, cout_room := Some (n - length s)\<rparr>))"

text \<open>Characters that are not all taken set \<open>badbit\<close>.\<close>

definition ostream_write :: "string \<Rightarrow> (thrown, unit, world) call" where
  "ostream_write s = seq (sputn s) (\<lambda>all_taken. if all_taken then ret () else setstate {Badbit})"

text \<open>
  \<open>operator<<(std::ostream&, const char*)\<close>, a formatted output function: behind the
  sentry the characters are written, padded with the fill character to the field width
  when that is larger (before them, or after them when the stream pads on the right; a
  part that fails stops the rest), and the width is reset to 0.
\<close>

definition ostream_insert :: "string \<Rightarrow> (thrown, unit, world) call" where
  "ostream_insert s =
     seq sentry (\<lambda>ok.
       if \<not> ok then ret ()
       else seq (\<lambda>w.
              if length s < cout_width w then
                (let pad = replicate (cout_width w - length s) (cout_fill w) in
                 if cout_left w
                 then seq (ostream_write s)
                        (\<lambda>_ w'. if good w' then ostream_write pad w' else ret () w') w
                 else seq (ostream_write pad)
                        (\<lambda>_ w'. if good w' then ostream_write s w' else ret () w') w)
              else ostream_write s w)
            (\<lambda>_ w. ret () (w\<lparr>cout_width := 0\<rparr>)))"

text \<open>\<open>put\<close>, an unformatted output function: one character behind the sentry.\<close>

definition ostream_put :: "char \<Rightarrow> (thrown, unit, world) call" where
  "ostream_put c = seq sentry (\<lambda>ok. if ok then ostream_write [c] else ret ())"

text \<open>
  \<open>flush\<close>, an unformatted output function: behind the sentry it synchronises the
  output sequence, which holds nothing back here.
\<close>

definition ostream_flush :: "(thrown, unit, world) call" where
  "ostream_flush = seq sentry (\<lambda>ok. ret ())"

text \<open>\<open>std::endl\<close>: \<open>put\<close> of the newline character, then \<open>flush\<close>.\<close>

definition endl :: "(thrown, unit, world) call" where
  "endl = seq (ostream_put (CHR 0x0A)) (\<lambda>_. ostream_flush)"

subsection \<open>The static operation\<close>

text \<open>
  a.h line 40:
  \<^verbatim>\<open>static void func0() {std::cout << "calling static f0()" << std::endl;}\<close>
  The body has no handler: an exception of the stream leaves \<open>func0\<close>.
\<close>

definition details_A_func0 :: "(thrown, unit, world) call" where
  "details_A_func0 = seq (ostream_insert ''calling static f0()'') (\<lambda>_. endl)"

text \<open>
  The hypotheses under which a write goes through: the device takes \<open>k\<close> more
  characters.
\<close>

definition takes :: "nat \<Rightarrow> world \<Rightarrow> bool" where
  "takes k w = (case cout_room w of None \<Rightarrow> True | Some n \<Rightarrow> k \<le> n)"

text \<open>
  Static storage is zero-initialised, nothing has been written and no object is alive
  when the program starts. \<open>std::cout\<close> starts good, with an empty exception mask, width
  0 and the space as fill character, padding on the left; the device is one that takes
  every character.
\<close>

definition program_start :: world where
  "program_start =
     \<lparr>g_count = 0, cout = [], cout_rdstate = {}, cout_exceptions = {}, cout_width = 0,
      cout_fill = CHR '' '', cout_left = False, cout_room = None,
      binders = {}, impls = {}, next_addr = 0\<rparr>"

section \<open>a_interface.h: the interface of the example\<close>

text \<open>
  Modelled from the spec: the member function \<open>foo\<close> of the interface template
  \<open>interface::A<T>\<close>. Its header a_interface.h is included by a.h line 26 and is not
  among the sources. By the spec (4.2) the body of each operation obtains the pointer to
  the bound implementation through the accessor, invokes the corresponding method of the
  implementation and returns or propagates its result unchanged. The method of the
  implementation is the parameter \<open>DETAILS_foo\<close>.
\<close>

definition interface_A_foo ::
  "(DETAILS_ptr \<Rightarrow> ('e, 'r, 's) call) \<Rightarrow> INTERFACE_ptr \<Rightarrow> ('e, 'r, 's) call" where
  "interface_A_foo DETAILS_foo this = DETAILS_foo (details this)"

text \<open>
  Modelled from the spec: the static member function \<open>func0\<close> of the same interface
  template, missing with a_interface.h. A static operation has no object to find: by the
  spec (4.2, 8) it invokes the static operation of the implementation type and passes
  on what that does with no alteration.
\<close>

definition interface_A_func0 :: "('e, 'r, 's) call \<Rightarrow> ('e, 'r, 's) call" where
  "interface_A_func0 DETAILS_func0 = DETAILS_func0"

text \<open>
  a.h line 46: \<^verbatim>\<open>using A = type<interface::A, details::A>;\<close>. An operation called on
  an object of the composed type is the one of its public base, on the base subobject.
\<close>

definition A_foo :: "type_ptr \<Rightarrow> ('e, unit, world) call" where
  "A_foo p = interface_A_foo details_A_foo (to_INTERFACE p)"

definition A_func0 :: "(thrown, unit, world) call" where
  "A_func0 = interface_A_func0 details_A_func0"

section \<open>b.cpp\<close>

text \<open>
  b.cpp lines 24-29:
  \<^verbatim>\<open>template<typename T> void B<T>::bar() { m_a.foo(); }\<close>
  The class template is declared in b.h, which is not among the sources: \<open>T_foo\<close> is
  the member function \<open>foo\<close> of the template argument, and \<open>m_a\<close> gives the address of
  the member \<open>m_a\<close> of the \<open>B<T>\<close> object that \<open>this\<close> points to. The body has no
  handler, and \<open>bar\<close> returns nothing.
\<close>

definition B_bar ::
  "('p \<Rightarrow> ('e, 'r, 's) call) \<Rightarrow> ('b \<Rightarrow> 'p) \<Rightarrow> 'b \<Rightarrow> ('e, unit, 's) call" where
  "B_bar T_foo m_a this = discard (T_foo (m_a this))"

section \<open>Lifetime of objects\<close>

text \<open>
  Class \<open>type\<close> declares no constructor and no destructor (helpers.h lines 29-44): the
  implicit ones construct the member \<open>d\<close> with the object and destroy it with the
  object. Neither of the two classes of a.h runs code of its own there.
\<close>

definition construct_type :: "('e, type_ptr, world) call" where
  "construct_type w =
     (let p = Type_at (next_addr w) in
      Inr (p, w\<lparr>binders := insert p (binders w),
                impls := insert (Member_d p) (impls w),
                next_addr := Suc (next_addr w)\<rparr>))"

definition destroy_type :: "type_ptr \<Rightarrow> ('e, unit, world) call" where
  "destroy_type p w =
     Inr ((), w\<lparr>binders := binders w - {p}, impls := impls w - {Member_d p}\<rparr>)"

text \<open>An object of \<open>details::A\<close> that is no member of a composed object.\<close>

definition construct_details_A :: "('e, DETAILS_ptr, world) call" where
  "construct_details_A w =
     (let i = Standalone (next_addr w) in
      Inr (i, w\<lparr>impls := insert i (impls w), next_addr := Suc (next_addr w)\<rparr>))"

definition destroy_details_A :: "addr \<Rightarrow> ('e, unit, world) call" where
  "destroy_details_A a w = Inr ((), w\<lparr>impls := impls w - {Standalone a}\<rparr>)"

text \<open>\<open>n\<close> composed objects, constructed one after the other.\<close>

fun construct_n :: "nat \<Rightarrow> ('e, type_ptr list, world) call" where
  "construct_n 0 = ret []"
| "construct_n (Suc n) =
     seq construct_type (\<lambda>p. seq (construct_n n) (\<lambda>ps. ret (p # ps)))"

text \<open>What a program can do with the classes of a.h and helpers.h, one step at a time.\<close>

datatype operation =
    Construct_type
  | Destroy_type type_ptr
  | Construct_details_A
  | Destroy_details_A addr
  | Call_foo type_ptr
  | Call_func0
  | Call_details_A_foo DETAILS_ptr

fun perform :: "operation \<Rightarrow> (thrown, unit, world) call" where
  "perform Construct_type = discard construct_type"
| "perform (Destroy_type p) = destroy_type p"
| "perform Construct_details_A = discard construct_details_A"
| "perform (Destroy_details_A a) = destroy_details_A a"
| "perform (Call_foo p) = A_foo p"
| "perform Call_func0 = A_func0"
| "perform (Call_details_A_foo i) = details_A_foo i"

text \<open>The composed object an implementation object is the member \<open>d\<close> of, if any.\<close>

fun owner :: "DETAILS_ptr \<Rightarrow> type_ptr option" where
  "owner (Member_d p) = Some p"
| "owner (Standalone a) = None"

text \<open>The implementation objects alive that belong to the composed object \<open>p\<close>.\<close>

definition instances_of :: "type_ptr \<Rightarrow> world \<Rightarrow> DETAILS_ptr set" where
  "instances_of p w = Set.filter (\<lambda>i. owner i = Some p) (impls w)"

text \<open>
  The ownership invariant: the implementation objects alive that are members are the
  members \<open>d\<close> of the composed objects alive, no more and no fewer.
\<close>

definition owned :: "world \<Rightarrow> bool" where
  "owned w = (Set.filter (\<lambda>i. owner i \<noteq> None) (impls w) = Member_d ` binders w)"

text \<open>
  The allocation invariant: every object alive lies below the next address to hand out.
\<close>

fun addr_of_type :: "type_ptr \<Rightarrow> addr" where
  "addr_of_type (Type_at a) = a"

fun addr_of_DETAILS :: "DETAILS_ptr \<Rightarrow> addr" where
  "addr_of_DETAILS (Member_d p) = addr_of_type p"
| "addr_of_DETAILS (Standalone a) = a"

definition allocated :: "world \<Rightarrow> bool" where
  "allocated w =
     ((\<forall>p \<in> binders w. addr_of_type p < next_addr w) \<and>
      (\<forall>i \<in> impls w. addr_of_DETAILS i < next_addr w))"

text \<open>
  The counter an operation called on the composed object \<open>p\<close> acts on. \<open>foo\<close> ends in
  \<open>details::A::foo\<close>, whose body reads and writes the variable \<open>g_count\<close> of namespace
  scope on whatever object it is called; neither \<open>type\<close> nor \<open>details::A\<close> declares an
  integer member.
\<close>

definition counter_of :: "type_ptr \<Rightarrow> world \<Rightarrow> 32 word" where
  "counter_of p w = g_count w"

text \<open>
  Two composed objects are constructed and \<open>foo\<close> is called three times on the first.
\<close>

definition bump_scenario :: "('e, type_ptr \<times> type_ptr, world) call" where
  "bump_scenario =
     seq construct_type (\<lambda>a. seq construct_type (\<lambda>b.
       seq (A_foo a) (\<lambda>_. seq (A_foo a) (\<lambda>_. seq (A_foo a) (\<lambda>_. ret (a, b))))))"

section \<open>Access to the members of the composed type\<close>

text \<open>
  The members class \<open>type\<close> declares (helpers.h lines 32-43): the alias
  \<open>details_type\<close>, the data member \<open>d\<close> and the two overloads of \<open>details\<close>.
\<close>

datatype member = Decl_details_type | Decl_d | Decl_details | Decl_details_const

datatype access = Private | Protected | Public

text \<open>
  Where a name is used: in class \<open>type<INTERFACE, DETAILS>\<close> itself, in
  \<open>INTERFACE<type<INTERFACE, DETAILS>>\<close>, or in any other code.
\<close>

datatype scope = Within_type | Within_INTERFACE_of_type | Elsewhere

text \<open>
  The class is declared with the key \<open>class\<close> and has no access specifier: every
  member is private.
\<close>

definition access_of :: "member \<Rightarrow> access" where
  "access_of m = Private"

text \<open>helpers.h line 35: \<^verbatim>\<open>friend class INTERFACE<type<INTERFACE, DETAILS>>;\<close>\<close>

definition friend_of_type :: "scope \<Rightarrow> bool" where
  "friend_of_type s = (s = Within_INTERFACE_of_type)"

text \<open>
  A private member can be named by the members and the friends of its class, a public
  one by everyone.
\<close>

definition accessible :: "scope \<Rightarrow> member \<Rightarrow> bool" where
  "accessible s m = (access_of m = Public \<or> s = Within_type \<or> friend_of_type s)"

text \<open>The members that hold state: the non-static data members.\<close>

fun data_member :: "member \<Rightarrow> bool" where
  "data_member Decl_d = True"
| "data_member _ = False"

section \<open>What a call leaves alone\<close>

text \<open>
  Two states with the same counter, the same objects alive and the same next address:
  they differ in the stream only.
\<close>

definition same_objects :: "world \<Rightarrow> world \<Rightarrow> bool" where
  "same_objects w w' = (g_count w' = g_count w \<and> binders w' = binders w \<and>
     impls w' = impls w \<and> next_addr w' = next_addr w)"

text \<open>Nothing was written from the first state to the second, and no error bit cleared.\<close>

definition quiet :: "world \<Rightarrow> world \<Rightarrow> bool" where
  "quiet w w' = (cout w' = cout w \<and> cout_rdstate w \<subseteq> cout_rdstate w')"

section \<open>Auxiliary facts\<close>

lemma discard_unit: "discard (m :: ('e, unit, 's) call) s = m s"
  by (cases "m s") (auto simp: discard_def seq_def ret_def)

lemma discard_Inl_iff: "(discard m s = Inl e) = (m s = Inl e)"
  by (cases "m s") (auto simp: discard_def seq_def ret_def)

lemma details_A_foo_eq: "details_A_foo p w = Inr ((), w\<lparr>g_count := g_count w + 1\<rparr>)"
  by (simp add: details_A_foo_def)

lemma interface_A_foo_eq:
  "interface_A_foo DETAILS_foo (to_INTERFACE p) s = DETAILS_foo (Member_d p) s"
  by (simp add: interface_A_foo_def to_INTERFACE_def details_def)

lemma A_foo_eq: "A_foo p w = Inr ((), w\<lparr>g_count := g_count w + 1\<rparr>)"
  by (simp add: A_foo_def interface_A_foo_eq details_A_foo_eq)

lemma A_func0_eq: "A_func0 = details_A_func0"
  by (simp add: A_func0_def interface_A_func0_def)

text \<open>Calls that each add one to the counter add their number to it.\<close>

lemma calls_incr:
  "\<forall>c \<in> set cs. \<forall>w. c w = Inr ((), w\<lparr>g_count := g_count w + 1\<rparr>) \<Longrightarrow>
   calls cs w = Inr ((), w\<lparr>g_count := g_count w + of_nat (length cs)\<rparr>)"
proof (induction cs arbitrary: w)
  case Nil
  show ?case by (simp add: ret_def)
next
  case (Cons c cs)
  from Cons.prems have "c w = Inr ((), w\<lparr>g_count := g_count w + 1\<rparr>)"
    by simp
  then have "calls (c # cs) w = calls cs (w\<lparr>g_count := g_count w + 1\<rparr>)"
    by (simp add: seq_def)
  also have "\<dots> = Inr ((), w\<lparr>g_count := g_count w + 1 + of_nat (length cs)\<rparr>)"
    using Cons.prems by (subst Cons.IH) simp_all
  finally show ?case by (simp add: add.assoc)
qed

lemma calls_foo:
  "calls (map details_A_foo ps) w
     = Inr ((), w\<lparr>g_count := g_count w + of_nat (length ps)\<rparr>)"
  using calls_incr [of "map details_A_foo ps" w] by (simp add: details_A_foo_eq)

text \<open>
  Adding a count to a 32-bit \<open>int\<close> adds it to the number the \<open>int\<close> stands for, as long
  as the sum stays below \<open>2 ^ 31\<close>.
\<close>

lemma sint_add_nat:
  fixes x :: "32 word"
  assumes "sint x + int k < 2 ^ 31"
  shows "sint (x + of_nat k) = sint x + int k"
proof -
  have eq: "x + of_nat k = word_of_int (sint x + int k)"
    by simp
  have lo: "- (2 ^ 31) \<le> sint x + int k"
    using sint_ge [of x] by simp
  have "sint (x + of_nat k) = signed_take_bit 31 (sint x + int k)"
    unfolding eq by (simp add: sint_sbintrunc' del: of_int_add)
  also have "\<dots> = sint x + int k"
    using lo assms by (simp add: signed_take_bit_int_eq_self)
  finally show ?thesis .
qed

lemma construct_type_eq:
  "construct_type w = Inr (Type_at (next_addr w),
     w\<lparr>binders := insert (Type_at (next_addr w)) (binders w),
       impls := insert (Member_d (Type_at (next_addr w))) (impls w),
       next_addr := Suc (next_addr w)\<rparr>)"
  by (simp add: construct_type_def Let_def)

lemma bump_scenario_eq:
  "bump_scenario w = Inr ((Type_at (next_addr w), Type_at (Suc (next_addr w))),
     w\<lparr>g_count := g_count w + 3,
       binders := insert (Type_at (Suc (next_addr w)))
                   (insert (Type_at (next_addr w)) (binders w)),
       impls := insert (Member_d (Type_at (Suc (next_addr w))))
                 (insert (Member_d (Type_at (next_addr w))) (impls w)),
       next_addr := Suc (Suc (next_addr w))\<rparr>)"
  by (simp add: bump_scenario_def seq_def construct_type_eq A_foo_eq ret_def)

text \<open>
  \<open>n\<close> constructions hand out the next \<open>n\<close> addresses and make the objects there, and
  their members \<open>d\<close>, alive.
\<close>

lemma construct_n_eq:
  "construct_n n w = Inr (map Type_at [next_addr w ..< next_addr w + n],
     w\<lparr>binders := Type_at ` {next_addr w ..< next_addr w + n} \<union> binders w,
       impls := (\<lambda>a. Member_d (Type_at a)) ` {next_addr w ..< next_addr w + n} \<union> impls w,
       next_addr := next_addr w + n\<rparr>)"
proof (induction n arbitrary: w)
  case 0
  show ?case by (simp add: ret_def)
next
  case (Suc n)
  have ivl: "{next_addr w ..< Suc (next_addr w + n)}
      = insert (next_addr w) {Suc (next_addr w) ..< Suc (next_addr w + n)}"
    by auto
  show ?case
    by (simp add: seq_def construct_type_eq Suc.IH ret_def upt_conv_Cons ivl del: upt_Suc)
qed

subsection \<open>The stream while it is good\<close>

lemma sentry_good: "good w \<Longrightarrow> sentry w = Inr (True, w)"
  by (simp add: sentry_def)

lemma write_taken:
  "takes (length s) w \<Longrightarrow>
   ostream_write s w = Inr ((), w\<lparr>cout := cout w @ s,
      cout_room := map_option (\<lambda>n. n - length s) (cout_room w)\<rparr>)"
  by (cases "cout_room w") (auto simp: ostream_write_def takes_def sputn_def seq_def ret_def)

lemma insert_good:
  "good w \<Longrightarrow> cout_width w \<le> length s \<Longrightarrow> takes (length s) w \<Longrightarrow>
   ostream_insert s w = Inr ((), w\<lparr>cout := cout w @ s, cout_width := 0,
      cout_room := map_option (\<lambda>n. n - length s) (cout_room w)\<rparr>)"
  by (simp add: ostream_insert_def seq_def sentry_good write_taken ret_def)

lemma put_good:
  "good w \<Longrightarrow> takes 1 w \<Longrightarrow>
   ostream_put c w = Inr ((), w\<lparr>cout := cout w @ [c],
      cout_room := map_option (\<lambda>n. n - 1) (cout_room w)\<rparr>)"
  using write_taken [of "[c]" w] by (simp add: ostream_put_def seq_def sentry_good)

lemma flush_good: "good w \<Longrightarrow> ostream_flush w = Inr ((), w)"
  by (simp add: ostream_flush_def seq_def sentry_good ret_def)

lemma func0_good:
  assumes "good w" "cout_width w \<le> 19" "takes 20 w"
  shows "details_A_func0 w = Inr ((), w\<lparr>cout := cout w @ ''calling static f0()'' @ [CHR 0x0A],
      cout_width := 0, cout_room := map_option (\<lambda>n. n - 20) (cout_room w)\<rparr>)"
proof -
  let ?m = "''calling static f0()''"
  have len: "length ?m = 19"
    by simp
  have t19: "takes (length ?m) w"
    using assms(3) by (auto simp: takes_def split: option.splits)
  let ?w1 = "w\<lparr>cout := cout w @ ?m, cout_width := 0,
      cout_room := map_option (\<lambda>n. n - length ?m) (cout_room w)\<rparr>"
  have 1: "ostream_insert ?m w = Inr ((), ?w1)"
    using assms(1,2) t19 by (intro insert_good) (simp_all only: len)
  have g1: "good ?w1"
    using assms(1) by (simp add: good_def)
  have t1: "takes 1 ?w1"
    using assms(3) by (auto simp: takes_def split: option.splits)
  let ?w2 = "?w1\<lparr>cout := cout ?w1 @ [CHR 0x0A],
      cout_room := map_option (\<lambda>n. n - 1) (cout_room ?w1)\<rparr>"
  have 2: "ostream_put (CHR 0x0A) ?w1 = Inr ((), ?w2)"
    by (rule put_good [OF g1 t1])
  have g2: "good ?w2"
    using assms(1) by (simp add: good_def)
  have "details_A_func0 w = endl ?w1"
    by (simp only: details_A_func0_def seq_def 1 sum.case prod.case)
  also have "\<dots> = ostream_flush ?w2"
    by (simp only: endl_def seq_def 2 sum.case prod.case)
  also have "\<dots> = Inr ((), ?w2)"
    by (rule flush_good [OF g2])
  also have "?w2 = w\<lparr>cout := cout w @ ?m @ [CHR 0x0A],
      cout_width := 0, cout_room := map_option (\<lambda>n. n - 20) (cout_room w)\<rparr>"
    by (cases "cout_room w") simp_all
  finally show ?thesis .
qed

subsection \<open>The stream touches nothing but itself\<close>

lemma same_objects_refl: "same_objects w w"
  by (simp add: same_objects_def)

lemma same_objects_trans: "same_objects w w1 \<Longrightarrow> same_objects w1 w2 \<Longrightarrow> same_objects w w2"
  by (simp add: same_objects_def)

lemma seq_same_objects:
  assumes "same_objects w (state_after (m w))"
    and "\<And>a w1. same_objects w1 (state_after (f a w1))"
  shows "same_objects w (state_after (seq m f w))"
proof (cases "m w")
  case (Inl e)
  then show ?thesis using assms(1) by (cases e) (simp add: seq_def)
next
  case (Inr r)
  obtain a w1 where r: "r = (a, w1)" by (cases r)
  from Inr r assms(1) have "same_objects w w1" by simp
  moreover have "same_objects w1 (state_after (f a w1))" by (rule assms(2))
  ultimately show ?thesis
    using Inr r by (simp add: seq_def same_objects_trans)
qed

lemma setstate_same: "same_objects w (state_after (setstate bits w))"
  by (simp add: setstate_def Let_def same_objects_def)

lemma ret_same: "same_objects w (state_after (ret r w :: thrown + 'r \<times> world))"
  by (simp add: ret_def same_objects_def)

lemma sentry_same: "same_objects w (state_after (sentry w))"
  unfolding sentry_def
  by (auto intro!: seq_same_objects setstate_same ret_same same_objects_refl)

lemma sputn_same: "same_objects w (state_after (sputn s w))"
  by (cases "cout_room w") (simp_all add: sputn_def same_objects_def)

lemma write_same: "same_objects w (state_after (ostream_write s w))"
  unfolding ostream_write_def
  by (auto intro!: seq_same_objects setstate_same ret_same sputn_same)

lemma width0_same: "same_objects w (state_after (ret () (w\<lparr>cout_width := 0\<rparr>) :: thrown + unit \<times> world))"
  by (simp add: ret_def same_objects_def)

lemma insert_same: "same_objects w (state_after (ostream_insert s w))"
  unfolding ostream_insert_def Let_def
  by (auto intro!: seq_same_objects sentry_same ret_same write_same width0_same)

lemma put_same: "same_objects w (state_after (ostream_put c w))"
  unfolding ostream_put_def
  by (auto intro!: seq_same_objects sentry_same ret_same write_same)

lemma flush_same: "same_objects w (state_after (ostream_flush w))"
  unfolding ostream_flush_def
  by (auto intro!: seq_same_objects sentry_same ret_same)

lemma endl_same: "same_objects w (state_after (endl w))"
  unfolding endl_def
  by (auto intro!: seq_same_objects put_same flush_same)

lemma func0_same: "same_objects w (state_after (details_A_func0 w))"
  unfolding details_A_func0_def
  by (auto intro!: seq_same_objects insert_same endl_same)

subsection \<open>A stream that is not good writes nothing\<close>

lemma quiet_trans: "quiet w w1 \<Longrightarrow> quiet w1 w2 \<Longrightarrow> quiet w w2"
  by (auto simp: quiet_def)

lemma quiet_not_good: "\<not> good w \<Longrightarrow> quiet w w1 \<Longrightarrow> \<not> good w1"
  by (auto simp: quiet_def good_def)

lemma seq_quiet:
  assumes "\<not> good w" "quiet w (state_after (m w))"
    and "\<And>a w1. \<not> good w1 \<Longrightarrow> quiet w1 (state_after (f a w1))"
  shows "quiet w (state_after (seq m f w))"
proof (cases "m w")
  case (Inl e)
  then show ?thesis using assms(2) by (cases e) (simp add: seq_def)
next
  case (Inr r)
  obtain a w1 where r: "r = (a, w1)" by (cases r)
  from Inr r assms(2) have q: "quiet w w1" by simp
  then have "\<not> good w1" using assms(1) by (rule quiet_not_good [rotated])
  then have "quiet w1 (state_after (f a w1))" by (rule assms(3))
  with q show ?thesis
    using Inr r by (simp add: seq_def quiet_trans)
qed

lemma setstate_quiet: "quiet w (state_after (setstate bits w))"
  by (auto simp: setstate_def Let_def quiet_def)

lemma sentry_failed:
  assumes "\<not> good w"
  shows "quiet w (state_after (sentry w))" and "sentry w = Inr (ok, w1) \<Longrightarrow> \<not> ok"
  using assms
  by (auto simp: sentry_def seq_def ret_def setstate_def Let_def quiet_def split: if_splits)

lemma insert_quiet: "\<not> good w \<Longrightarrow> quiet w (state_after (ostream_insert s w))"
  using sentry_failed [of w]
  by (cases "sentry w") (auto simp: ostream_insert_def seq_def ret_def)

lemma put_quiet: "\<not> good w \<Longrightarrow> quiet w (state_after (ostream_put c w))"
  using sentry_failed [of w]
  by (cases "sentry w") (auto simp: ostream_put_def seq_def ret_def)

lemma flush_quiet: "\<not> good w \<Longrightarrow> quiet w (state_after (ostream_flush w))"
  using sentry_failed [of w]
  by (cases "sentry w") (auto simp: ostream_flush_def seq_def ret_def)

lemma endl_quiet: "\<not> good w \<Longrightarrow> quiet w (state_after (endl w))"
  unfolding endl_def by (rule seq_quiet) (simp_all add: put_quiet flush_quiet)

lemma func0_quiet: "\<not> good w \<Longrightarrow> quiet w (state_after (details_A_func0 w))"
  unfolding details_A_func0_def by (rule seq_quiet) (simp_all add: insert_quiet endl_quiet)


subsection \<open>Lifetime and the invariants\<close>

lemma same_objects_inv:
  "same_objects w w' \<Longrightarrow> owned w \<Longrightarrow> allocated w \<Longrightarrow> owned w' \<and> allocated w'"
  by (simp add: same_objects_def owned_def allocated_def)

lemma perform_inv:
  assumes "owned w" "allocated w"
  shows "owned (state_after (perform op w)) \<and> allocated (state_after (perform op w))"
proof (cases op)
  case Call_func0
  then show ?thesis
    using same_objects_inv [OF func0_same assms] by (simp add: A_func0_eq)
qed (use assms in \<open>auto simp: owned_def allocated_def discard_def seq_def ret_def
       construct_type_eq destroy_type_def construct_details_A_def destroy_details_A_def
       Let_def A_foo_eq details_A_foo_eq less_Suc_eq\<close>)

lemma calls_perform_inv:
  "owned w \<Longrightarrow> allocated w \<Longrightarrow>
   owned (state_after (calls (map perform ops) w)) \<and>
   allocated (state_after (calls (map perform ops) w))"
proof (induction ops arbitrary: w)
  case Nil
  then show ?case by (simp add: ret_def)
next
  case (Cons op ops)
  have inv: "owned (state_after (perform op w)) \<and> allocated (state_after (perform op w))"
    using Cons.prems by (rule perform_inv)
  show ?case
  proof (cases "perform op w")
    case (Inl e)
    with inv show ?thesis by (cases e) (simp add: seq_def)
  next
    case (Inr r)
    obtain u w1 where r: "r = (u, w1)" by (cases r)
    with Inr inv have "owned w1" "allocated w1" by simp_all
    then have "owned (state_after (calls (map perform ops) w1)) \<and>
        allocated (state_after (calls (map perform ops) w1))"
      by (rule Cons.IH)
    with Inr r show ?thesis by (simp add: seq_def)
  qed
qed

lemma owned_instances:
  assumes "owned w"
  shows "instances_of p w = (if p \<in> binders w then {Member_d p} else {})"
proof -
  from assms have eq: "{i \<in> impls w. owner i \<noteq> None} = Member_d ` binders w"
    by (simp add: owned_def)
  have "instances_of p w = {i \<in> {i \<in> impls w. owner i \<noteq> None}. owner i = Some p}"
    by (auto simp: instances_of_def)
  also have "\<dots> = {i \<in> Member_d ` binders w. owner i = Some p}"
    by (simp only: eq)
  also have "\<dots> = (if p \<in> binders w then {Member_d p} else {})"
    by auto
  finally show ?thesis .
qed

lemma owner_Some: "(owner i = Some p) = (i = Member_d p)"
  by (cases i) auto

lemma construct_type_alive:
  "allocated w \<Longrightarrow>
   \<exists>p w'. construct_type w = Inr (p, w') \<and> p \<notin> binders w \<and> details (to_INTERFACE p) \<notin> impls w \<and>
     binders w' = insert p (binders w) \<and>
     impls w' = insert (details (to_INTERFACE p)) (impls w) \<and>
     instances_of p w' = {details (to_INTERFACE p)} \<and>
     (\<forall>q. q \<noteq> p \<longrightarrow> instances_of q w' = instances_of q w)"
  by (auto simp: construct_type_eq allocated_def details_def to_INTERFACE_def instances_of_def
      owner_Some)

lemma destroy_type_dead:
  "\<exists>w'. destroy_type p w = Inr ((), w') \<and>
     binders w' = binders w - {p} \<and> impls w' = impls w - {details (to_INTERFACE p)} \<and>
     instances_of p w' = {} \<and> (\<forall>q. q \<noteq> p \<longrightarrow> instances_of q w' = instances_of q w)"
  by (auto simp: destroy_type_def details_def to_INTERFACE_def instances_of_def owner_Some)

text \<open>
  On a good stream with a device that takes every character, \<open>n\<close> calls of \<open>func0\<close>
  write the line \<open>n\<close> times.
\<close>

lemma calls_func0:
  "good w \<Longrightarrow> cout_width w \<le> 19 \<Longrightarrow> cout_room w = None \<Longrightarrow>
   \<exists>w'. calls (replicate n A_func0) w = Inr ((), w') \<and>
     cout w' = cout w @ concat (replicate n (''calling static f0()'' @ [CHR 0x0A]))"
proof (induction n arbitrary: w)
  case 0
  show ?case by (simp add: ret_def)
next
  case (Suc n)
  let ?w1 = "w\<lparr>cout := cout w @ ''calling static f0()'' @ [CHR 0x0A],
      cout_width := 0, cout_room := map_option (\<lambda>n. n - 20) (cout_room w)\<rparr>"
  have 1: "A_func0 w = Inr ((), ?w1)"
    unfolding A_func0_eq using Suc.prems by (intro func0_good) (simp_all add: takes_def)
  have "good ?w1" "cout_width ?w1 \<le> 19" "cout_room ?w1 = None"
    using Suc.prems by (simp_all add: good_def)
  from Suc.IH [OF this] obtain w' where
    2: "calls (replicate n A_func0) ?w1 = Inr ((), w')" and
    3: "cout w' = cout ?w1 @ concat (replicate n (''calling static f0()'' @ [CHR 0x0A]))"
    by blast
  have "calls (replicate (Suc n) A_func0) w = calls (replicate n A_func0) ?w1"
    by (simp only: replicate_Suc calls.simps seq_def 1 sum.case prod.case)
  with 2 3 show ?case by simp
qed

lemma owned_start: "owned program_start"
  by (simp add: owned_def program_start_def)

lemma allocated_start: "allocated program_start"
  by (simp add: allocated_def program_start_def)

section \<open>The forwarding of calls\<close>

text \<open>
  Claim C1. An operation called on a composed object does exactly what the method of the
  implementation does: whatever the method \<open>DETAILS_foo\<close> of the implementation is, in
  every state, \<open>foo\<close> of the interface on the composed object \<open>p\<close> has the outcome
  (return value, new state or exception) of \<open>DETAILS_foo\<close> on the member \<open>d\<close> of \<open>p\<close>,
  and the static \<open>func0\<close> has the outcome of the implementation's. For the example,
  \<open>foo\<close> and \<open>func0\<close> of \<open>A\<close> have the outcome of \<open>details::A::foo\<close> on any
  implementation object that stands on its own, and of \<open>details::A::func0\<close>. In
  particular \<open>B<T>::bar()\<close> has the outcome of \<open>foo()\<close> on the embedded member
  \<open>m_a\<close>, for every \<open>T\<close> whose \<open>foo\<close> returns nothing, for \<open>T = details::A\<close> and for
  \<open>T = A\<close>.
\<close>

theorem binder_call_equals_direct_call:
  "interface_A_foo DETAILS_foo (to_INTERFACE p) s = DETAILS_foo (Member_d p) s \<and>
   interface_A_func0 DETAILS_func0 s = DETAILS_func0 s \<and>
   A_foo p w = details_A_foo (Standalone a) w \<and>
   A_func0 w = details_A_func0 w \<and>
   B_bar (T_foo :: 'p \<Rightarrow> ('e, unit, 's) call) m_a this s = T_foo (m_a this) s \<and>
   B_bar details_A_foo m_a' this' w = details_A_foo (Standalone a) w \<and>
   B_bar A_foo m_a'' this'' w = details_A_foo (Standalone a) w"
  by (simp add: interface_A_foo_eq interface_A_func0_def A_foo_eq A_func0_def B_bar_def
      discard_unit details_A_foo_eq)

text \<open>
  Claim C7. Neither \<open>B<T>::bar\<close> nor the interface adds, catches or changes an
  exception: a call through them leaves by the exception \<open>e\<close> exactly when the call of
  the implementation's method on the embedded object does, for every method, state and
  exception; so does the whole chain from \<open>bar\<close> through the interface to the
  implementation.
\<close>

theorem errors_propagate_unchanged:
  "(B_bar T_foo m_a this s = Inl e) = (T_foo (m_a this) s = Inl e) \<and>
   (interface_A_foo DETAILS_foo i s = Inl e) = (DETAILS_foo (details i) s = Inl e) \<and>
   (interface_A_func0 DETAILS_func0 s = Inl e) = (DETAILS_func0 s = Inl e) \<and>
   (B_bar (\<lambda>p. interface_A_foo DETAILS_foo (to_INTERFACE p)) m_a' this' s = Inl e)
     = (DETAILS_foo (Member_d (m_a' this')) s = Inl e)"
  by (simp add: B_bar_def discard_Inl_iff interface_A_foo_def interface_A_func0_def
      to_INTERFACE_def details_def)

section \<open>The example implementation\<close>

text \<open>
  Claim C4. Every call of \<open>details::A::foo\<close>, on whatever object, adds exactly 1 to the
  one counter \<open>details::g_count\<close> and changes nothing else; calls on the objects \<open>ps\<close>,
  in this order, add the number of calls. The addition is that of a 32-bit \<open>int\<close>; as
  long as the sum stays below \<open>2 ^ 31\<close>, the number the counter stands for has grown by
  the number of calls.
\<close>

theorem foo_increments_g_count:
  "(details_A_foo p w :: 'e + unit \<times> world) = Inr ((), w\<lparr>g_count := g_count w + 1\<rparr>) \<and>
   (calls (map details_A_foo ps) w :: 'e + unit \<times> world)
     = Inr ((), w\<lparr>g_count := g_count w + of_nat (length ps)\<rparr>) \<and>
   (sint (g_count w) + int (length ps) < 2 ^ 31 \<longrightarrow>
     (\<exists>w'. (calls (map details_A_foo ps) w :: 'e + unit \<times> world) = Inr ((), w') \<and>
           sint (g_count w') = sint (g_count w) + int (length ps)))"
  by (simp add: details_A_foo_eq calls_foo sint_add_nat)

theorem foo_increments_g_count_witness:
  "sint (g_count program_start)
     + int (length [Standalone 0, Member_d (Type_at 1), Standalone 0]) < 2 ^ 31 \<and>
   (\<exists>w'. (calls (map details_A_foo [Standalone 0, Member_d (Type_at 1), Standalone 0])
             program_start :: unit + unit \<times> world) = Inr ((), w') \<and>
         sint (g_count w') = 3)"
  using foo_increments_g_count [where 'e = unit, of "Standalone 0" program_start
      "[Standalone 0, Member_d (Type_at 1), Standalone 0]"]
  by (simp add: program_start_def)

text \<open>
  Claim C10. What \<open>details::A::foo\<close> does is the same on every object of
  \<open>details::A\<close>: for any two objects and any state, the two calls have the same outcome.
\<close>

theorem foo_independent_of_instance: "details_A_foo p w = details_A_foo q w"
  by (simp add: details_A_foo_eq)

section \<open>The accessors\<close>

text \<open>
  Claim C5. Each of the two overloads of \<open>details\<close>, given the pointer to the interface
  base of the composed object \<open>p\<close>, returns the pointer to the member \<open>d\<close> of \<open>p\<close>:
  of no other composed object (the results for \<open>p\<close> and \<open>q\<close> agree only when \<open>p\<close>
  is \<open>q\<close>) and never an implementation object outside. Every member of the composed
  type is private, so the accessors and \<open>d\<close> can be named in the class itself and in
  its friend \<open>INTERFACE<type<INTERFACE, DETAILS>>\<close> and nowhere else.
\<close>

theorem details_returns_own_member:
  "details (to_INTERFACE p) = Member_d p \<and>
   details_const (to_INTERFACE p) = Member_d p \<and>
   (details (to_INTERFACE p) = details (to_INTERFACE q)) = (p = q) \<and>
   (details_const (to_INTERFACE p) = details_const (to_INTERFACE q)) = (p = q) \<and>
   details (to_INTERFACE p) \<noteq> Standalone a \<and>
   details_const (to_INTERFACE p) \<noteq> Standalone a \<and>
   static_cast_type (to_INTERFACE p) = p \<and>
   accessible s m = (s = Within_type \<or> s = Within_INTERFACE_of_type)"
  by (simp add: details_def details_const_def to_INTERFACE_def accessible_def access_of_def
      friend_of_type_def)

section \<open>Instances and the shared counter\<close>

text \<open>
  Claim C2, as stated: after two composed objects are constructed at the start of the
  program and \<open>foo\<close> is called three times on the first, the counter of the first is 3
  and the counter of the second is still 0. This is false: there is one counter,
  \<open>details::g_count\<close>, and it is 3 for both.
\<close>

theorem second_counter_not_zero:
  "\<not> (\<forall>a b w.
        (bump_scenario program_start :: unit + (type_ptr \<times> type_ptr) \<times> world) = Inr ((a, b), w)
        \<longrightarrow> counter_of a w = 3 \<and> counter_of b w = 0)"
  by (simp add: bump_scenario_eq counter_of_def program_start_def)

text \<open>
  Claim C2, amended. Two composed objects are constructed and \<open>foo\<close> is called three
  times on the first: the two objects are distinct, the shared counter
  \<open>details::g_count\<close> has grown by 3, and this is the counter of the first object and of
  the second alike. From the start of the program, where the counter is 0, it is 3 for
  both.
\<close>

theorem three_calls_shared_counter:
  "(\<exists>a b w'. bump_scenario w = Inr ((a, b), w') \<and> a \<noteq> b \<and> g_count w' = g_count w + 3 \<and>
      counter_of a w' = g_count w + 3 \<and> counter_of b w' = g_count w + 3) \<and>
   (\<exists>a b w'. bump_scenario program_start = Inr ((a, b), w') \<and> a \<noteq> b \<and> g_count w' = 3 \<and>
      counter_of a w' = 3 \<and> counter_of b w' = 3)"
  by (simp add: bump_scenario_eq counter_of_def program_start_def)

text \<open>
  Claim C3, as stated, in its second half: an operation on one constructed composed
  object leaves the state observed through every other constructed composed object
  unchanged. This is false for \<open>foo\<close>: with two composed objects constructed at the
  start of the program, a call on one of them changes the counter of the other.
\<close>

theorem foo_changes_counter_of_other:
  "\<not> (\<forall>ps w a b w'.
        (construct_n 2 program_start :: unit + type_ptr list \<times> world) = Inr (ps, w) \<longrightarrow>
        a \<in> set ps \<longrightarrow> b \<in> set ps \<longrightarrow> a \<noteq> b \<longrightarrow>
        (A_foo a w :: unit + unit \<times> world) = Inr ((), w') \<longrightarrow>
        counter_of b w' = counter_of b w)"
proof
  assume h: "\<forall>ps w a b w'.
        (construct_n 2 program_start :: unit + type_ptr list \<times> world) = Inr (ps, w) \<longrightarrow>
        a \<in> set ps \<longrightarrow> b \<in> set ps \<longrightarrow> a \<noteq> b \<longrightarrow>
        (A_foo a w :: unit + unit \<times> world) = Inr ((), w') \<longrightarrow>
        counter_of b w' = counter_of b w"
  obtain w where c: "(construct_n 2 program_start :: unit + type_ptr list \<times> world)
      = Inr ([Type_at 0, Type_at 1], w)"
    by (simp add: construct_n_eq program_start_def upt_rec)
  have alive: "Type_at 0 \<in> set [Type_at 0, Type_at 1]" "Type_at 1 \<in> set [Type_at 0, Type_at 1]"
    "Type_at 0 \<noteq> Type_at 1"
    by simp_all
  have call: "(A_foo (Type_at 0) w :: unit + unit \<times> world) = Inr ((), w\<lparr>g_count := g_count w + 1\<rparr>)"
    by (rule A_foo_eq)
  from h c alive call
  have "counter_of (Type_at 1) (w\<lparr>g_count := g_count w + 1\<rparr>) = counter_of (Type_at 1) w"
    by blast
  then show False
    by (simp add: counter_of_def)
qed

text \<open>
  Claim C3, amended. For every \<open>n\<close>, constructing \<open>n\<close> composed objects yields \<open>n\<close>
  objects whose implementation objects, as the accessor finds them, are pairwise
  distinct, and all of them are alive afterwards; among the objects constructed, and
  among any others, an operation on one composed object leaves the objects alive,
  composed and implementation, as they were, but \<open>foo\<close> adds 1 to the counter of every
  other composed object too, the counter being shared. \<open>func0\<close> leaves the objects and
  the counter alone, however the stream fares.
\<close>

theorem instances_distinct_counter_shared:
  "(\<exists>ps w'. construct_n n w = Inr (ps, w') \<and> length ps = n \<and>
      distinct (map (\<lambda>p. details (to_INTERFACE p)) ps) \<and>
      set ps \<subseteq> binders w' \<and> (\<lambda>p. details (to_INTERFACE p)) ` set ps \<subseteq> impls w' \<and>
      (\<forall>a b. \<exists>w''. A_foo a w' = Inr ((), w'') \<and> binders w'' = binders w' \<and>
         impls w'' = impls w' \<and> cout w'' = cout w' \<and>
         counter_of b w'' = counter_of b w' + 1)) \<and>
   (\<exists>w'. A_foo a w = Inr ((), w') \<and> binders w' = binders w \<and> impls w' = impls w \<and>
      cout w' = cout w \<and> counter_of b w' = counter_of b w + 1) \<and>
   binders (state_after (A_func0 w)) = binders w \<and>
   impls (state_after (A_func0 w)) = impls w \<and>
   counter_of b (state_after (A_func0 w)) = counter_of b w"
proof -
  have "same_objects w (state_after (A_func0 w))"
    unfolding A_func0_eq by (rule func0_same)
  then have "binders (state_after (A_func0 w)) = binders w \<and>
      impls (state_after (A_func0 w)) = impls w \<and>
      counter_of b (state_after (A_func0 w)) = counter_of b w"
    by (simp add: same_objects_def counter_of_def)
  then show ?thesis
    by (auto simp add: construct_n_eq A_foo_eq counter_of_def details_def
        to_INTERFACE_def distinct_map inj_on_def)
qed

section \<open>The static operation\<close>

text \<open>
  Claim C8, as stated: \<open>func0\<close> called through the bound interface writes the message
  and a newline on every invocation. This is false. On a stream with \<open>failbit\<close> set it
  returns and has written nothing; with \<open>badbit\<close> in the exception mask and a device
  that takes no character it leaves by \<open>std::ios_base::failure\<close>; with a field width
  of 21 it writes two spaces before the message.
\<close>

theorem func0_not_on_every_invocation:
  "A_func0 (program_start\<lparr>cout_rdstate := {Failbit}\<rparr>)
     = Inr ((), program_start\<lparr>cout_rdstate := {Failbit}\<rparr>) \<and>
   A_func0 (program_start\<lparr>cout_exceptions := {Badbit}, cout_room := Some 0\<rparr>)
     = Inl (Ios_base_failure,
            program_start\<lparr>cout_rdstate := {Badbit}, cout_exceptions := {Badbit},
              cout_room := Some 0\<rparr>) \<and>
   A_func0 (program_start\<lparr>cout_width := 21\<rparr>)
     = Inr ((), program_start\<lparr>cout := ''  calling static f0()'' @ [CHR 0x0A]\<rparr>)"
  by (simp add: A_func0_eq details_A_func0_def ostream_insert_def endl_def ostream_put_def
      ostream_flush_def ostream_write_def sputn_def sentry_def setstate_def good_def seq_def
      ret_def Let_def program_start_def eval_nat_numeral)

text \<open>
  Claim C8, amended. \<open>func0\<close> called through the bound interface does in every state
  what \<open>details::A::func0\<close> does, and touches nothing but the stream. Whenever
  \<open>std::cout\<close> is good, its field width is no more than the 19 characters of the
  message and the device takes 20 characters, it returns having written exactly
  \<open>calling static f0()\<close> and a newline after what was written before (and having
  reset the width); on a device that takes every character \<open>n\<close> calls write the line
  \<open>n\<close> times. On a stream that is not good it writes nothing.
\<close>

theorem func0_writes_fixed_message:
  "A_func0 w = details_A_func0 w \<and>
   same_objects w (state_after (A_func0 w)) \<and>
   (good w \<and> cout_width w \<le> 19 \<and> takes 20 w \<longrightarrow>
      A_func0 w = Inr ((), w\<lparr>cout := cout w @ ''calling static f0()'' @ [CHR 0x0A],
        cout_width := 0, cout_room := map_option (\<lambda>n. n - 20) (cout_room w)\<rparr>)) \<and>
   (good w \<and> cout_width w \<le> 19 \<and> cout_room w = None \<longrightarrow>
      (\<exists>w'. calls (replicate n A_func0) w = Inr ((), w') \<and>
         cout w' = cout w @ concat (replicate n (''calling static f0()'' @ [CHR 0x0A])))) \<and>
   (\<not> good v \<longrightarrow> cout (state_after (A_func0 v)) = cout v)"
proof -
  have "\<not> good v \<longrightarrow> cout (state_after (A_func0 v)) = cout v"
    using func0_quiet [of v] by (simp add: A_func0_eq quiet_def)
  moreover have "same_objects w (state_after (A_func0 w))"
    unfolding A_func0_eq by (rule func0_same)
  moreover have "good w \<and> cout_width w \<le> 19 \<and> takes 20 w \<longrightarrow>
      A_func0 w = Inr ((), w\<lparr>cout := cout w @ ''calling static f0()'' @ [CHR 0x0A],
        cout_width := 0, cout_room := map_option (\<lambda>n. n - 20) (cout_room w)\<rparr>)"
    unfolding A_func0_eq using func0_good [of w] by blast
  moreover have "good w \<and> cout_width w \<le> 19 \<and> cout_room w = None \<longrightarrow>
      (\<exists>w'. calls (replicate n A_func0) w = Inr ((), w') \<and>
         cout w' = cout w @ concat (replicate n (''calling static f0()'' @ [CHR 0x0A])))"
    using calls_func0 [of w n] by blast
  ultimately show ?thesis
    by (simp add: A_func0_eq)
qed

theorem func0_writes_fixed_message_witness:
  "good program_start \<and> cout_width program_start \<le> 19 \<and> takes 20 program_start \<and>
   cout_room program_start = None \<and>
   A_func0 program_start
     = Inr ((), program_start\<lparr>cout := ''calling static f0()'' @ [CHR 0x0A]\<rparr>) \<and>
   (\<exists>w'. calls (replicate 2 A_func0) program_start = Inr ((), w') \<and>
      cout w' = ''calling static f0()'' @ [CHR 0x0A] @ ''calling static f0()'' @ [CHR 0x0A]) \<and>
   \<not> good (program_start\<lparr>cout_rdstate := {Failbit}\<rparr>) \<and>
   cout (state_after (A_func0 (program_start\<lparr>cout_rdstate := {Failbit}\<rparr>))) = []"
proof -
  have h: "good program_start" "cout_width program_start \<le> 19" "takes 20 program_start"
    "cout_room program_start = None" "\<not> good (program_start\<lparr>cout_rdstate := {Failbit}\<rparr>)"
    by (simp_all add: program_start_def good_def takes_def)
  have two: "replicate 2 x = [x, x]" for x :: "'a"
    by (simp add: numeral_2_eq_2)
  show ?thesis
    using h func0_writes_fixed_message
      [of program_start 2 "program_start\<lparr>cout_rdstate := {Failbit}\<rparr>"]
    by (simp add: program_start_def two A_func0_eq)
qed

section \<open>Ownership\<close>

text \<open>
  Claim C6. The member \<open>d\<close> is the only data member of the composed type, and code
  outside the class and its friend can name neither \<open>d\<close> nor an accessor. Constructing
  a composed object makes a new object \<open>p\<close> and its member \<open>d\<close> alive, neither alive
  before, and \<open>d\<close> is then the one implementation object of \<open>p\<close>; destroying \<open>p\<close> ends
  \<open>p\<close> and its \<open>d\<close>, and \<open>p\<close> has no implementation object left; neither touches the
  implementation objects of another composed object; a call of \<open>foo\<close> or \<open>func0\<close>, however
  it ends, leaves the objects alive as they are. The ownership and allocation invariants
  hold at the start of the program, every operation keeps them, whether it returns or
  throws, and so does every program \<open>ops\<close>. Where the ownership invariant holds, the
  implementation objects alive that belong to a composed object \<open>p\<close> are exactly its one
  member \<open>d\<close> while \<open>p\<close> is alive and none otherwise; and the member \<open>d\<close> of \<open>p\<close>
  belongs to \<open>p\<close> and to no other object.
\<close>

theorem one_implementation_per_binder:
  "owned program_start \<and> allocated program_start \<and>
   (owned w \<and> allocated w \<longrightarrow>
      owned (state_after (perform op w)) \<and> allocated (state_after (perform op w))) \<and>
   (owned w \<and> allocated w \<longrightarrow>
      owned (state_after (calls (map perform ops) w)) \<and>
      allocated (state_after (calls (map perform ops) w)) \<and>
      (\<forall>p. instances_of p (state_after (calls (map perform ops) w))
           = (if p \<in> binders (state_after (calls (map perform ops) w))
              then {Member_d p} else {}))) \<and>
   (owned w \<longrightarrow> instances_of p w = (if p \<in> binders w then {Member_d p} else {})) \<and>
   (allocated w \<longrightarrow>
      (\<exists>c w'. (construct_type w :: 'e + type_ptr \<times> world) = Inr (c, w') \<and> c \<notin> binders w \<and>
         details (to_INTERFACE c) \<notin> impls w \<and>
         binders w' = insert c (binders w) \<and>
         impls w' = insert (details (to_INTERFACE c)) (impls w) \<and>
         instances_of c w' = {details (to_INTERFACE c)} \<and>
         (\<forall>q. q \<noteq> c \<longrightarrow> instances_of q w' = instances_of q w))) \<and>
   (\<exists>w'. (destroy_type p w :: 'e + unit \<times> world) = Inr ((), w') \<and>
      binders w' = binders w - {p} \<and> impls w' = impls w - {details (to_INTERFACE p)} \<and>
      instances_of p w' = {} \<and>
      (\<forall>q. q \<noteq> p \<longrightarrow> instances_of q w' = instances_of q w)) \<and>
   binders (state_after (perform (Call_foo p) w)) = binders w \<and>
   impls (state_after (perform (Call_foo p) w)) = impls w \<and>
   binders (state_after (perform Call_func0 w)) = binders w \<and>
   impls (state_after (perform Call_func0 w)) = impls w \<and>
   (owner (details (to_INTERFACE p)) = Some q) = (p = q) \<and>
   data_member m = (m = Decl_d) \<and>
   accessible Elsewhere m = False"
proof -
  have inv: "owned w \<and> allocated w \<longrightarrow>
      owned (state_after (calls (map perform ops) w)) \<and>
      allocated (state_after (calls (map perform ops) w)) \<and>
      (\<forall>p. instances_of p (state_after (calls (map perform ops) w))
           = (if p \<in> binders (state_after (calls (map perform ops) w))
              then {Member_d p} else {}))"
    using calls_perform_inv [of w ops] owned_instances by blast
  have step: "owned w \<and> allocated w \<longrightarrow>
      owned (state_after (perform op w)) \<and> allocated (state_after (perform op w))"
    using perform_inv [of w op] by blast
  have one: "owned w \<longrightarrow> instances_of p w = (if p \<in> binders w then {Member_d p} else {})"
    using owned_instances [of w p] by blast
  have con: "allocated w \<longrightarrow>
      (\<exists>c w'. (construct_type w :: 'e + type_ptr \<times> world) = Inr (c, w') \<and> c \<notin> binders w \<and>
         details (to_INTERFACE c) \<notin> impls w \<and>
         binders w' = insert c (binders w) \<and>
         impls w' = insert (details (to_INTERFACE c)) (impls w) \<and>
         instances_of c w' = {details (to_INTERFACE c)} \<and>
         (\<forall>q. q \<noteq> c \<longrightarrow> instances_of q w' = instances_of q w))"
    using construct_type_alive [of w] by blast
  have des: "\<exists>w'. (destroy_type p w :: 'e + unit \<times> world) = Inr ((), w') \<and>
      binders w' = binders w - {p} \<and> impls w' = impls w - {details (to_INTERFACE p)} \<and>
      instances_of p w' = {} \<and>
      (\<forall>q. q \<noteq> p \<longrightarrow> instances_of q w' = instances_of q w)"
    by (rule destroy_type_dead)
  have foo1: "binders (state_after (perform (Call_foo p) w)) = binders w"
    by (simp add: A_foo_eq)
  have foo2: "impls (state_after (perform (Call_foo p) w)) = impls w"
    by (simp add: A_foo_eq)
  have same: "same_objects w (state_after (perform Call_func0 w))"
    by (simp add: A_func0_eq func0_same)
  have func1: "binders (state_after (perform Call_func0 w)) = binders w"
    using same by (simp add: same_objects_def)
  have func2: "impls (state_after (perform Call_func0 w)) = impls w"
    using same by (simp add: same_objects_def)
  have own: "(owner (details (to_INTERFACE p)) = Some q) = (p = q)"
    by (simp add: details_def to_INTERFACE_def)
  have dm: "data_member m = (m = Decl_d)"
    by (cases m) simp_all
  have acc: "accessible Elsewhere m = False"
    by (simp add: accessible_def access_of_def friend_of_type_def)
  show ?thesis
    by (intro conjI owned_start allocated_start step inv one con des foo1 foo2 func1 func2
        own dm acc)
qed

theorem one_implementation_per_binder_witness:
  "owned (program_start\<lparr>binders := {Type_at 0, Type_at 1},
      impls := {Member_d (Type_at 0), Standalone 2, Member_d (Type_at 1)}, next_addr := 3\<rparr>) \<and>
   allocated (program_start\<lparr>binders := {Type_at 0, Type_at 1},
      impls := {Member_d (Type_at 0), Standalone 2, Member_d (Type_at 1)}, next_addr := 3\<rparr>) \<and>
   owned (state_after (perform (Destroy_type (Type_at 0))
      (program_start\<lparr>binders := {Type_at 0, Type_at 1},
         impls := {Member_d (Type_at 0), Standalone 2, Member_d (Type_at 1)},
         next_addr := 3\<rparr>))) \<and>
   instances_of (Type_at 0)
      (program_start\<lparr>binders := {Type_at 0, Type_at 1},
         impls := {Member_d (Type_at 0), Standalone 2, Member_d (Type_at 1)},
         next_addr := 3\<rparr>) = {Member_d (Type_at 0)} \<and>
   (\<exists>w'. (destroy_type (Type_at 0)
        (program_start\<lparr>binders := {Type_at 0, Type_at 1},
           impls := {Member_d (Type_at 0), Standalone 2, Member_d (Type_at 1)},
           next_addr := 3\<rparr>) :: unit + unit \<times> world) = Inr ((), w') \<and>
      binders w' = {Type_at 1} \<and> impls w' = {Standalone 2, Member_d (Type_at 1)} \<and>
      instances_of (Type_at 0) w' = {}) \<and>
   (\<exists>c w'. (construct_type
        (program_start\<lparr>binders := {Type_at 0, Type_at 1},
           impls := {Member_d (Type_at 0), Standalone 2, Member_d (Type_at 1)},
           next_addr := 3\<rparr>) :: unit + type_ptr \<times> world) = Inr (c, w') \<and>
      c \<notin> {Type_at 0, Type_at 1} \<and> instances_of c w' = {Member_d c})"
proof -
  let ?w = "program_start\<lparr>binders := {Type_at 0, Type_at 1},
      impls := {Member_d (Type_at 0), Standalone 2, Member_d (Type_at 1)}, next_addr := 3\<rparr>"
  have o: "owned ?w"
    by (auto simp: owned_def)
  have a: "allocated ?w"
    by (simp add: allocated_def)
  note t = one_implementation_per_binder
    [where 'e = unit and w = ?w and op = "Destroy_type (Type_at 0)" and ops = "[]"
      and p = "Type_at 0" and q = "Type_at 0" and m = Decl_d]
  from t have t_step: "owned ?w \<and> allocated ?w \<longrightarrow>
      owned (state_after (perform (Destroy_type (Type_at 0)) ?w)) \<and>
      allocated (state_after (perform (Destroy_type (Type_at 0)) ?w))"
    by (elim conjE)
  from t have t_one: "owned ?w \<longrightarrow>
      instances_of (Type_at 0) ?w = (if Type_at 0 \<in> binders ?w then {Member_d (Type_at 0)} else {})"
    by (elim conjE)
  from t have t_con: "allocated ?w \<longrightarrow>
      (\<exists>c w'. (construct_type ?w :: unit + type_ptr \<times> world) = Inr (c, w') \<and> c \<notin> binders ?w \<and>
         details (to_INTERFACE c) \<notin> impls ?w \<and>
         binders w' = insert c (binders ?w) \<and>
         impls w' = insert (details (to_INTERFACE c)) (impls ?w) \<and>
         instances_of c w' = {details (to_INTERFACE c)} \<and>
         (\<forall>q. q \<noteq> c \<longrightarrow> instances_of q w' = instances_of q ?w))"
    by (elim conjE)
  from t have t_des: "\<exists>w'. (destroy_type (Type_at 0) ?w :: unit + unit \<times> world) = Inr ((), w') \<and>
      binders w' = binders ?w - {Type_at 0} \<and>
      impls w' = impls ?w - {details (to_INTERFACE (Type_at 0))} \<and>
      instances_of (Type_at 0) w' = {} \<and>
      (\<forall>q. q \<noteq> Type_at 0 \<longrightarrow> instances_of q w' = instances_of q ?w)"
    by (elim conjE)
  have step: "owned (state_after (perform (Destroy_type (Type_at 0)) ?w))"
    using t_step o a by simp
  have one: "instances_of (Type_at 0) ?w = {Member_d (Type_at 0)}"
    using t_one o by simp
  have des: "\<exists>w'. (destroy_type (Type_at 0) ?w :: unit + unit \<times> world) = Inr ((), w') \<and>
      binders w' = {Type_at 1} \<and> impls w' = {Standalone 2, Member_d (Type_at 1)} \<and>
      instances_of (Type_at 0) w' = {}"
  proof -
    from t_des obtain w' where "(destroy_type (Type_at 0) ?w :: unit + unit \<times> world) = Inr ((), w')"
      and "binders w' = binders ?w - {Type_at 0}"
      and "impls w' = impls ?w - {details (to_INTERFACE (Type_at 0))}"
      and "instances_of (Type_at 0) w' = {}"
      by blast
    then show ?thesis
      by (auto simp: details_def to_INTERFACE_def)
  qed
  have con: "\<exists>c w'. (construct_type ?w :: unit + type_ptr \<times> world) = Inr (c, w') \<and>
      c \<notin> {Type_at 0, Type_at 1} \<and> instances_of c w' = {Member_d c}"
  proof -
    from t_con a obtain c w' where "(construct_type ?w :: unit + type_ptr \<times> world) = Inr (c, w')"
      and "c \<notin> binders ?w" and "instances_of c w' = {details (to_INTERFACE c)}"
      by blast
    then show ?thesis
      by (auto simp: details_def to_INTERFACE_def)
  qed
  from o a step one des con show ?thesis
    by (intro conjI)
qed

end
